theory Spec2Isabelle
  imports Main "HOL-Library.Word"
begin

unbundle bit_operations_syntax

section \<open>EM API: data model (main.h)\<close>

text \<open>
  Machine types of the C source: \<open>__u8\<close>, \<open>__u16\<close>, \<open>__u32\<close> and \<open>unsigned\<close> are words
  of their width; an \<open>int\<close> argument is the 32-bit word of its two's-complement bits
  (\<open>sint\<close> reads its value). The \<open>int\<close> return value
  \<open>rv\<close> of every function is a HOL \<open>int\<close>: the values the code assigns to it
  (\<open>-1\<close>, \<open>0\<close>, \<open>1\<close>, \<open>EMLN_HDR\<close>, \<open>o->len + 2\<close>) fit, and the conversion
  \<open>rv = k\<close> from \<open>unsigned\<close> is written out as \<open>sint\<close>.
\<close>

type_synonym u4 = "4 word"
type_synonym u8 = "8 word"
type_synonym u16 = "16 word"
type_synonym u32 = "32 word"
type_synonym c_unsigned = "32 word"
type_synonym c_int = "32 word"

subsection \<open>Macros\<close>

definition EMLN_HDR :: nat where
  "EMLN_HDR = 12"

definition EMLN_DEV_NAME :: nat where
  "EMLN_DEV_NAME = 125"

definition EMLN_DEV_NUM :: nat where
  "EMLN_DEV_NUM = 64"

subsection \<open>Enumerations\<close>

text \<open>Enumeration constants are C \<open>int\<close>s; an \<open>unsigned\<close> operand is compared with them by value.\<close>

definition EMOB_NULL :: int where "EMOB_NULL = 0"
definition EMOB_HDR :: int where "EMOB_HDR = 1"
definition EMOB_LIST_DEV :: int where "EMOB_LIST_DEV = 2"
definition EMOB_MAX :: int where "EMOB_MAX = 3"

definition EMMT_REQ :: int where "EMMT_REQ = 0"
definition EMMT_RSP :: int where "EMMT_RSP = 1"
definition EMMT_EVENT :: int where "EMMT_EVENT = 2"
definition EMMT_MAX :: int where "EMMT_MAX = 3"

definition EMOP_EVENT :: int where "EMOP_EVENT = 0"
definition EMOP_LIST_DEV :: int where "EMOP_LIST_DEV = 1"
definition EMOP_CONN_DEV :: int where "EMOP_CONN_DEV = 2"
definition EMOP_DISCON_DEV :: int where "EMOP_DISCON_DEV = 3"
definition EMOP_MAX :: int where "EMOP_MAX = 4"

definition EMRC_SUCCESS :: int where "EMRC_SUCCESS = 0"
definition EMRC_BACKGROUND_OP_STARTED :: int where "EMRC_BACKGROUND_OP_STARTED = 1"
definition EMRC_INVALID_INPUT :: int where "EMRC_INVALID_INPUT = 2"
definition EMRC_UNSUPPORTED :: int where "EMRC_UNSUPPORTED = 3"
definition EMRC_INTERNAL_ERROR :: int where "EMRC_INTERNAL_ERROR = 4"
definition EMRC_BUSY :: int where "EMRC_BUSY = 5"
definition EMRC_MAX :: int where "EMRC_MAX = 6"

subsection \<open>Structs\<close>

text \<open>
  \<open>struct emapi_hdr\<close>. The fields carry the prefix \<open>hdr_\<close> (the C names \<open>type\<close>,
  \<open>len\<close>, \<open>a\<close>, \<open>b\<close> would shadow variables); the two bit-fields are 4-bit words.
\<close>

record emapi_hdr =
  hdr_type :: u4
  hdr_ver :: u4
  hdr_tag :: u8
  hdr_rc :: u8
  hdr_opcode :: u8
  hdr_a :: u8
  hdr_rsvd :: u8
  hdr_len :: u16
  hdr_b :: u32

text \<open>
  \<open>struct emapi_dev\<close>: \<open>dev_name\<close> is the array \<open>char name[EMLN_DEV_NAME]\<close>, a list whose
  length is the array's size.
\<close>

record emapi_dev =
  dev_id :: u8
  dev_len :: u8
  dev_name :: "u8 list"

definition dev_ok :: "emapi_dev \<Rightarrow> bool" where
  "dev_ok d = (length (dev_name d) = EMLN_DEV_NAME)"

text \<open>\<open>struct emapi_msg\<close>: the header and the union \<open>obj\<close>, whose only member is \<open>dev\<close>.\<close>

record emapi_msg =
  hdr :: emapi_hdr
  obj_dev :: "emapi_dev list"

text \<open>\<open>memset(&m->hdr, 0, sizeof(struct emapi_hdr))\<close> leaves every field zero.\<close>

definition zero_hdr :: emapi_hdr where
  "zero_hdr = \<lparr>hdr_type = 0, hdr_ver = 0, hdr_tag = 0, hdr_rc = 0, hdr_opcode = 0,
     hdr_a = 0, hdr_rsvd = 0, hdr_len = 0, hdr_b = 0\<rparr>"

subsection \<open>Pointers and undefined behaviour\<close>

text \<open>
  A \<open>void *\<close> object pointer is \<open>None\<close> (NULL) or the object it points to: a header, or an
  array of device entries seen from the element pointed to. A byte pointer \<open>__u8 *\<close> is
  \<open>None\<close> or the bytes from the pointer to the end of the caller's buffer.

  The C functions return an error code only where they test for it. An access the code
  makes without a test and that leaves the object (a NULL dereference, an index past the
  end of a buffer or array) is undefined behaviour of the C program; the model reports it
  as a \<open>fault\<close>, which is not a return value of the function. The argument \<open>type\<close>
  selects the struct the code casts an object pointer to; a pointer to an object of the
  other kind is the fault \<open>WrongObject\<close>.
\<close>

datatype fault = NullDereference | ReadOutOfBounds | WriteOutOfBounds | WrongObject

datatype object = HDR emapi_hdr | DEVS "emapi_dev list"

text \<open>
  \<open>memcpy(dst, src, n)\<close> on two disjoint byte arrays: the first \<open>n\<close> bytes of \<open>dst\<close> are
  replaced. Copying more than either array holds leaves that array.
\<close>

definition memcpy :: "u8 list \<Rightarrow> u8 list \<Rightarrow> nat \<Rightarrow> fault + u8 list" where
  "memcpy dst src n =
     (if n \<le> length src \<and> n \<le> length dst then Inr (take n src @ drop n dst)
      else if length src \<le> length dst then Inl ReadOutOfBounds
      else Inl WriteOutOfBounds)"

section \<open>Name tables and lookups (main.c)\<close>

definition STR_EMMT :: "string list" where
  "STR_EMMT = [''Request'', ''Response'', ''Event'']"

definition STR_EMOB :: "string list" where
  "STR_EMOB = [''Null'', ''emob_hdr'', ''emob_dev'']"

definition STR_EMOP :: "string list" where
  "STR_EMOP = [''Event Notification'', ''List Devices'', ''Connect Device'',
     ''Disconnect Device'']"

definition STR_EMRC :: "string list" where
  "STR_EMRC = [''Success'', ''Background operation started'', ''Invalid input'',
     ''Unsupported'', ''Internal error'', ''Busy'']"

text \<open>The lookups return \<open>const char *\<close>: \<open>None\<close> is NULL.\<close>

definition emmt :: "c_unsigned \<Rightarrow> string option" where
  "emmt u = (if uint u \<ge> EMMT_MAX then None else Some (STR_EMMT ! unat u))"

definition emob :: "c_unsigned \<Rightarrow> string option" where
  "emob u = (if uint u \<ge> EMOB_MAX then None else Some (STR_EMOB ! unat u))"

definition emop :: "c_unsigned \<Rightarrow> string option" where
  "emop u = (if uint u \<ge> EMOP_MAX then None else Some (STR_EMOP ! unat u))"

definition emrc :: "c_unsigned \<Rightarrow> string option" where
  "emrc u = (if uint u \<ge> EMRC_MAX then None else Some (STR_EMRC ! unat u))"

section \<open>Shape resolution (main.c)\<close>

definition emapi_emob_req :: "c_unsigned \<Rightarrow> int" where
  "emapi_emob_req opcode =
     (if uint opcode = EMOP_EVENT then EMOB_NULL
      else if uint opcode = EMOP_LIST_DEV then EMOB_LIST_DEV
      else if uint opcode = EMOP_CONN_DEV then EMOB_NULL
      else if uint opcode = EMOP_DISCON_DEV then EMOB_NULL
      else EMOB_NULL)"

definition emapi_emob_rsp :: "c_unsigned \<Rightarrow> int" where
  "emapi_emob_rsp opcode =
     (if uint opcode = EMOP_EVENT then EMOB_NULL
      else if uint opcode = EMOP_LIST_DEV then EMOB_LIST_DEV
      else if uint opcode = EMOP_CONN_DEV then EMOB_NULL
      else if uint opcode = EMOP_DISCON_DEV then EMOB_NULL
      else EMOB_NULL)"

section \<open>Message builders (main.c)\<close>

text \<open>
  Each builder returns \<open>rv\<close> and the message behind \<open>m\<close> after the call. The assignments
  \<open>m->hdr.a = ppid\<close> and \<open>m->hdr.b = dev\<close> convert an \<open>int\<close> to \<open>__u8\<close> and \<open>__u32\<close>.
\<close>

definition emapi_fill_conn :: "emapi_msg option \<Rightarrow> c_int \<Rightarrow> c_int \<Rightarrow> int \<times> emapi_msg option" where
  "emapi_fill_conn m ppid dev =
     (case m of
        None \<Rightarrow> (1, None)
      | Some msg \<Rightarrow>
          (0, Some (msg\<lparr>hdr := zero_hdr\<lparr>hdr_opcode := word_of_int EMOP_CONN_DEV,
                                         hdr_a := ucast ppid, hdr_b := ucast dev\<rparr>\<rparr>)))"

definition emapi_fill_disconn :: "emapi_msg option \<Rightarrow> c_int \<Rightarrow> c_int \<Rightarrow> int \<times> emapi_msg option" where
  "emapi_fill_disconn m ppid all =
     (case m of
        None \<Rightarrow> (1, None)
      | Some msg \<Rightarrow>
          (0, Some (msg\<lparr>hdr := zero_hdr\<lparr>hdr_opcode := word_of_int EMOP_DISCON_DEV,
                                         hdr_a := ucast ppid, hdr_b := ucast all\<rparr>\<rparr>)))"

definition emapi_fill_listdev :: "emapi_msg option \<Rightarrow> c_int \<Rightarrow> c_int \<Rightarrow> int \<times> emapi_msg option" where
  "emapi_fill_listdev m num start =
     (case m of
        None \<Rightarrow> (1, None)
      | Some msg \<Rightarrow>
          (0, Some (msg\<lparr>hdr := zero_hdr\<lparr>hdr_opcode := word_of_int EMOP_LIST_DEV,
                                         hdr_a := ucast num, hdr_b := ucast start\<rparr>\<rparr>)))"

section \<open>Codec (main.c)\<close>

subsection \<open>emapi_deserialize\<close>

text \<open>
  The body of \<open>case EMOB_HDR\<close>: an operand \<open>src[i]\<close> is promoted to a 32-bit \<open>int\<close>
  before it is shifted and masked, and the result is converted to the width of the field
  it is stored in. A shift such as \<open>src[11] << 24\<close> acts on the 32-bit pattern, as the
  compilers of the code's platform (GCC, Clang) compute it. The field \<open>rsvd\<close> is not
  assigned.
\<close>

definition deserialize_hdr :: "emapi_hdr \<Rightarrow> u8 list \<Rightarrow> emapi_hdr" where
  "deserialize_hdr h src = h
     \<lparr>hdr_ver := ucast (drop_bit 4 (ucast (src ! 0) :: u32) AND 0x0F),
      hdr_type := ucast ((ucast (src ! 0) :: u32) AND 0x0F),
      hdr_tag := src ! 1,
      hdr_rc := src ! 2,
      hdr_opcode := src ! 3,
      hdr_a := src ! 4,
      hdr_len := ucast (push_bit 8 (ucast (src ! 7) :: u32) OR ucast (src ! 6)),
      hdr_b := push_bit 24 (ucast (src ! 11)) OR push_bit 16 (ucast (src ! 10))
                 OR push_bit 8 (ucast (src ! 9)) OR ucast (src ! 8)\<rparr>"

text \<open>\<open>o->name[0] = 0\<close>\<close>

definition clear_name :: "u8 list \<Rightarrow> fault + u8 list" where
  "clear_name nm = (if nm = [] then Inl WriteOutOfBounds else Inr (nm[0 := 0]))"

text \<open>
  The loop of \<open>case EMOB_LIST_DEV\<close>, with \<open>n = num - i\<close> iterations left, \<open>oi\<close> the index
  in \<open>dst\<close> of the entry \<open>o\<close> points to and \<open>k\<close> the cursor in \<open>src\<close>. The code compares
  neither \<open>k\<close> with a buffer length (it is given none) nor \<open>o->len\<close> with
  \<open>EMLN_DEV_NAME\<close> nor \<open>i\<close> with \<open>EMLN_DEV_NUM\<close>.
\<close>

fun list_dev_loop ::
  "nat \<Rightarrow> emapi_dev list \<Rightarrow> nat \<Rightarrow> u8 list \<Rightarrow> c_unsigned \<Rightarrow> fault + (c_unsigned \<times> emapi_dev list)"
where
  "list_dev_loop 0 dst oi src k = Inr (k, dst)"
| "list_dev_loop (Suc n) dst oi src k =
     (if length src \<le> unat k then Inl ReadOutOfBounds
      else if length dst \<le> oi then Inl WriteOutOfBounds
      else if length src \<le> unat (k + 1) then Inl ReadOutOfBounds
      else
        let e = (dst ! oi)\<lparr>dev_id := src ! unat k, dev_len := src ! unat (k + 1)\<rparr>;
            k2 = k + 2
        in case (if dev_len e = 0 then clear_name (dev_name e)
                 else memcpy (dev_name e) (drop (unat k2) src) (unat (dev_len e))) of
             Inl f \<Rightarrow> Inl f
           | Inr nm \<Rightarrow>
               list_dev_loop n (dst[oi := e\<lparr>dev_name := nm\<rparr>]) (Suc oi) src
                 (k2 + ucast (dev_len e)))"

text \<open>
  The result is \<open>rv\<close> and the object behind \<open>dst\<close> after the call. \<open>param\<close> is NULL or points
  to the \<open>unsigned\<close> count.
\<close>

definition emapi_deserialize ::
  "object option \<Rightarrow> u8 list option \<Rightarrow> c_unsigned \<Rightarrow> c_unsigned option
     \<Rightarrow> fault + (int \<times> object option)"
where
  "emapi_deserialize dst src type param =
     (if dst = None \<or> uint type \<ge> EMOB_MAX then Inr (- 1, dst)
      else if uint type = EMOB_NULL then Inr (0, dst)
      else if uint type = EMOB_HDR then
        (case dst of
           Some (HDR h) \<Rightarrow>
             (case src of
                None \<Rightarrow> Inl NullDereference
              | Some buf \<Rightarrow>
                  if length buf < 12 then Inl ReadOutOfBounds
                  else Inr (int EMLN_HDR, Some (HDR (deserialize_hdr h buf))))
         | _ \<Rightarrow> Inl WrongObject)
      else if uint type = EMOB_LIST_DEV then
        (let num = (case param of None \<Rightarrow> 1 | Some n \<Rightarrow> n) in
         case dst of
           Some (DEVS arr) \<Rightarrow>
             (case src of
                None \<Rightarrow> if num = 0 then Inr (0, dst) else Inl NullDereference
              | Some buf \<Rightarrow>
                  (case list_dev_loop (unat num) arr 0 buf 0 of
                     Inl f \<Rightarrow> Inl f
                   | Inr (k, arr') \<Rightarrow> Inr (sint k, Some (DEVS arr'))))
         | _ \<Rightarrow> Inl WrongObject)
      else Inr (- 1, dst))"

subsection \<open>emapi_serialize\<close>

text \<open>
  The body of \<open>case EMOB_HDR\<close>: eleven assignments, to \<open>dst[0]\<close>..\<open>dst[4]\<close> and
  \<open>dst[6]\<close>..\<open>dst[11]\<close>. The bit-fields and \<open>len\<close> are promoted to \<open>int\<close>; \<open>b\<close> is
  unsigned.
\<close>

definition serialize_hdr :: "u8 list \<Rightarrow> emapi_hdr \<Rightarrow> u8 list" where
  "serialize_hdr dst h = dst
     [0 := ucast ((push_bit 4 (ucast (hdr_ver h) :: u32) AND 0xF0) OR (ucast (hdr_type h) AND 0x0F)),
      1 := hdr_tag h,
      2 := hdr_rc h,
      3 := hdr_opcode h,
      4 := hdr_a h,
      6 := ucast ((ucast (hdr_len h) :: u32) AND 0x00FF),
      7 := ucast (drop_bit 8 (ucast (hdr_len h) :: u32) AND 0x00FF),
      8 := ucast (hdr_b h AND 0x00FF),
      9 := ucast (drop_bit 8 (hdr_b h) AND 0x00FF),
      10 := ucast (drop_bit 16 (hdr_b h) AND 0x00FF),
      11 := ucast (drop_bit 24 (hdr_b h) AND 0x00FF)]"

text \<open>
  The result is \<open>rv\<close> and the buffer behind \<open>dst\<close> after the call. The only test is on
  \<open>type\<close>; \<open>param\<close> is not used.
\<close>

definition emapi_serialize ::
  "u8 list option \<Rightarrow> object option \<Rightarrow> c_unsigned \<Rightarrow> c_unsigned option
     \<Rightarrow> fault + (int \<times> u8 list option)"
where
  "emapi_serialize dst src type param =
     (if uint type = EMOB_NULL \<or> uint type \<ge> EMOB_MAX then Inr (0, dst)
      else if uint type = EMOB_HDR then
        (case src of
           None \<Rightarrow> Inl NullDereference
         | Some (HDR h) \<Rightarrow>
             (case dst of
                None \<Rightarrow> Inl NullDereference
              | Some buf \<Rightarrow>
                  if length buf < 12 then Inl WriteOutOfBounds
                  else Inr (int EMLN_HDR, Some (serialize_hdr buf h)))
         | Some (DEVS _) \<Rightarrow> Inl WrongObject)
      else if uint type = EMOB_LIST_DEV then
        (case src of
           None \<Rightarrow> Inl NullDereference
         | Some (HDR _) \<Rightarrow> Inl WrongObject
         | Some (DEVS []) \<Rightarrow> Inl ReadOutOfBounds
         | Some (DEVS (d # _)) \<Rightarrow>
             (case dst of
                None \<Rightarrow> Inl NullDereference
              | Some buf \<Rightarrow>
                  if length buf < 2 then Inl WriteOutOfBounds
                  else
                    (case memcpy (drop 2 buf) (dev_name d) (unat (dev_len d)) of
                       Inl f \<Rightarrow> Inl f
                     | Inr rest \<Rightarrow> Inr (uint (dev_len d) + 2, Some ([dev_id d, dev_len d] @ rest)))))
      else Inr (0, dst))"

section \<open>Callers and wire images\<close>

text \<open>
  The header that \<open>verify_hdr\<close> of testbench.c fills in before it serializes it into a
  zeroed buffer of \<open>EMLN_HDR\<close> bytes.
\<close>

definition verify_hdr_obj :: emapi_hdr where
  "verify_hdr_obj = \<lparr>hdr_type = word_of_int EMMT_RSP, hdr_ver = 0, hdr_tag = 0x42,
     hdr_rc = 0xCD, hdr_opcode = 0xAB, hdr_a = 0x23, hdr_rsvd = 0, hdr_len = 0x1FFF,
     hdr_b = 0x12345678\<rparr>"

text \<open>
  The twelve-byte header image as the specification lays it out (wire format, offsets 0
  to 11, reserved byte 0), to compare the output of \<open>emapi_serialize\<close> with.
\<close>

definition spec_header_image :: "emapi_hdr \<Rightarrow> u8 list" where
  "spec_header_image h =
     [push_bit 4 (ucast (hdr_ver h)) OR ucast (hdr_type h),
      hdr_tag h, hdr_rc h, hdr_opcode h, hdr_a h, 0,
      ucast (hdr_len h), ucast (drop_bit 8 (hdr_len h)),
      ucast (hdr_b h), ucast (drop_bit 8 (hdr_b h)),
      ucast (drop_bit 16 (hdr_b h)), ucast (drop_bit 24 (hdr_b h))]"

text \<open>
  A device descriptor is the id, the name length and that many name bytes of an entry;
  the rest of the array \<open>name\<close> is not part of it. Its wire record is
  \<open>[id][len][name bytes]\<close>, and a list payload is the records back to back.
\<close>

definition descriptor_of :: "emapi_dev \<Rightarrow> u8 \<times> u8 \<times> u8 list" where
  "descriptor_of d = (dev_id d, dev_len d, take (unat (dev_len d)) (dev_name d))"

definition wire_dev :: "emapi_dev \<Rightarrow> u8 list" where
  "wire_dev d = [dev_id d, dev_len d] @ take (unat (dev_len d)) (dev_name d)"

definition wire_devs :: "emapi_dev list \<Rightarrow> u8 list" where
  "wire_devs ds = concat (map wire_dev ds)"

text \<open>The entry \<open>e\<close> of the destination array after one iteration of the decoding loop
  has stored the record of \<open>d\<close> in it.\<close>

definition store_dev :: "emapi_dev \<Rightarrow> emapi_dev \<Rightarrow> emapi_dev" where
  "store_dev e d = e
     \<lparr>dev_id := dev_id d, dev_len := dev_len d,
      dev_name := (if dev_len d = 0 then (dev_name e)[0 := 0]
                   else take (unat (dev_len d)) (dev_name d) @ drop (unat (dev_len d)) (dev_name e))\<rparr>"

text \<open>
  A caller that serializes an array of entries into one buffer, as a list payload is
  built: \<open>off = 0; for each entry: off += emapi_serialize(buf + off, &dev[i],
  EMOB_LIST_DEV, NULL)\<close>. The result is \<open>off\<close> and the buffer.
\<close>

fun serialize_devs :: "u8 list \<Rightarrow> emapi_dev list \<Rightarrow> fault + (nat \<times> u8 list)" where
  "serialize_devs buf [] = Inr (0, buf)"
| "serialize_devs buf (d # ds) =
     (case emapi_serialize (Some buf) (Some (DEVS (d # ds))) (word_of_int EMOB_LIST_DEV) None of
        Inl f \<Rightarrow> Inl f
      | Inr (rv, dst) \<Rightarrow>
          (case dst of
             None \<Rightarrow> Inl NullDereference
           | Some buf1 \<Rightarrow>
               (case serialize_devs (drop (nat rv) buf1) ds of
                  Inl f \<Rightarrow> Inl f
                | Inr (off, rest) \<Rightarrow> Inr (nat rv + off, take (nat rv) buf1 @ rest))))"

text \<open>
  A zeroed entry (\<open>memset(&obj, 0, sizeof(obj))\<close>), and the entry that \<open>verify_dev\<close> of
  testbench.c fills in: id 0x21, the name "Device name" and its terminator, length 12.
\<close>

definition zero_dev :: emapi_dev where
  "zero_dev = \<lparr>dev_id = 0, dev_len = 0, dev_name = replicate EMLN_DEV_NAME 0\<rparr>"

definition verify_dev_obj :: emapi_dev where
  "verify_dev_obj = \<lparr>dev_id = 0x21, dev_len = 12,
     dev_name = [0x44, 0x65, 0x76, 0x69, 0x63, 0x65, 0x20, 0x6E, 0x61, 0x6D, 0x65, 0x00]
       @ replicate 113 0\<rparr>"

section \<open>Header codec: lemmas\<close>

lemmas enum_defs =
  EMOB_NULL_def EMOB_HDR_def EMOB_LIST_DEV_def EMOB_MAX_def
  EMMT_REQ_def EMMT_RSP_def EMMT_EVENT_def EMMT_MAX_def
  EMOP_EVENT_def EMOP_LIST_DEV_def EMOP_CONN_DEV_def EMOP_DISCON_DEV_def EMOP_MAX_def
  EMRC_SUCCESS_def EMRC_BACKGROUND_OP_STARTED_def EMRC_INVALID_INPUT_def
  EMRC_UNSUPPORTED_def EMRC_INTERNAL_ERROR_def EMRC_BUSY_def EMRC_MAX_def


lemma mask_0F: "(0x0F :: u32) = mask 4"
  by (simp add: mask_eq_exp_minus_1)

lemma mask_F0: "(0xF0 :: u32) = push_bit 4 (mask 4)"
  by (simp add: mask_eq_exp_minus_1 push_bit_eq_mult)

lemma mask_FF: "(0xFF :: u32) = mask 8"
  by (simp add: mask_eq_exp_minus_1)

text \<open>Decoding byte 0 gives back the two nibbles.\<close>

lemma ver_roundtrip:
  "ucast (drop_bit 4 (ucast (ucast ((push_bit 4 (ucast (v::u4) :: u32) AND 0xF0)
      OR (ucast (t::u4) AND 0x0F)) :: u8) :: u32) AND 0x0F) = v"
  unfolding mask_0F mask_F0 by (rule bit_word_eqI) (auto simp: bit_simps)

lemma type_roundtrip:
  "ucast ((ucast (ucast ((push_bit 4 (ucast (v::u4) :: u32) AND 0xF0)
      OR (ucast (t::u4) AND 0x0F)) :: u8) :: u32) AND 0x0F) = t"
  unfolding mask_0F mask_F0 by (rule bit_word_eqI) (auto simp: bit_simps)

text \<open>The two bytes of \<open>len\<close> and the four bytes of \<open>b\<close> reassemble to the field.\<close>

lemma len_roundtrip:
  "ucast (push_bit 8 (ucast (ucast (drop_bit 8 (ucast (l::u16) :: u32) AND 0x00FF) :: u8) :: u32)
      OR ucast (ucast ((ucast l :: u32) AND 0x00FF) :: u8)) = l"
  unfolding mask_FF by (rule bit_word_eqI) (auto simp: bit_simps)

lemma b_roundtrip:
  "push_bit 24 (ucast (ucast (drop_bit 24 b AND 0x00FF) :: u8))
     OR push_bit 16 (ucast (ucast (drop_bit 16 b AND 0x00FF) :: u8))
     OR push_bit 8 (ucast (ucast (drop_bit 8 b AND 0x00FF) :: u8))
     OR ucast (ucast (b AND 0x00FF) :: u8) = (b::u32)"
  unfolding mask_FF
proof (rule bit_word_eqI)
  fix n :: nat
  assume "n < LENGTH(32)"
  then consider "n < 8" | "8 \<le> n" "n < 16" | "16 \<le> n" "n < 24" | "24 \<le> n" "n < 32"
    by fastforce
  then show "bit (push_bit 24 (ucast (ucast (drop_bit 24 b AND mask 8) :: u8))
      OR push_bit 16 (ucast (ucast (drop_bit 16 b AND mask 8) :: u8))
      OR push_bit 8 (ucast (ucast (drop_bit 8 b AND mask 8) :: u8))
      OR ucast (ucast (b AND mask 8) :: u8) :: u32) n = bit b n"
    by cases (auto simp: bit_simps)
qed

text \<open>Each byte the encoder computes is the byte of the specified image.\<close>

lemma byte0_image:
  "(ucast ((push_bit 4 (ucast (v::u4) :: u32) AND 0xF0) OR (ucast (t::u4) AND 0x0F)) :: u8)
     = push_bit 4 (ucast v) OR ucast t"
  unfolding mask_0F mask_F0
  by (rule bit_word_eqI) (auto simp: bit_simps dest: bit_imp_le_length)

lemma len_lo_image: "(ucast (ucast (l::u16) :: u32) :: u8) = ucast l"
  by (rule bit_word_eqI) (auto simp: bit_simps)

lemma len_hi_image: "(ucast (drop_bit 8 (ucast (l::u16) :: u32)) :: u8) = ucast (drop_bit 8 l)"
  by (rule bit_word_eqI) (auto simp: bit_simps)

lemma b_image: "(ucast (drop_bit n (b::u32) AND 0x00FF) :: u8) = ucast (drop_bit n b)"
  unfolding mask_FF by (rule bit_word_eqI) (auto simp: bit_simps)

lemma b0_image: "(ucast ((b::u32) AND 0x00FF) :: u8) = ucast b"
  unfolding mask_FF by (rule bit_word_eqI) (auto simp: bit_simps)

lemma serialize_hdr_length: "length (serialize_hdr buf h) = length buf"
  by (simp add: serialize_hdr_def)

lemma serialize_hdr_frame: "i = 5 \<or> 12 \<le> i \<Longrightarrow> serialize_hdr buf h ! i = buf ! i"
  by (auto simp: serialize_hdr_def)

lemma serialize_hdr_take:
  assumes "12 \<le> length buf"
  shows "take 12 (serialize_hdr buf h) = (spec_header_image h)[5 := buf ! 5]"
proof (rule nth_equalityI)
  show "length (take 12 (serialize_hdr buf h)) = length ((spec_header_image h)[5 := buf ! 5])"
    using assms by (simp add: serialize_hdr_length spec_header_image_def)
next
  from assms have buf: "buf \<noteq> []" by auto
  fix j assume "j < length (take 12 (serialize_hdr buf h))"
  then have "j < 12" by simp
  then have "j \<in> {0, 1, 2, 3, 4, 5, 6, 7, 8, 9, 10, 11}"
    by simp arith
  then show "take 12 (serialize_hdr buf h) ! j = (spec_header_image h)[5 := buf ! 5] ! j"
    using assms buf
    by (elim insertE emptyE)
       (simp_all add: serialize_hdr_def spec_header_image_def byte0_image
          len_lo_image len_hi_image b_image b0_image)
qed

lemma deserialize_serialize_hdr:
  assumes "12 \<le> length buf"
  shows "deserialize_hdr z (serialize_hdr buf h) = h\<lparr>hdr_rsvd := hdr_rsvd z\<rparr>"
proof -
  from assms have "buf \<noteq> []" by auto
  with assms show ?thesis
    by (simp add: deserialize_hdr_def serialize_hdr_def ver_roundtrip type_roundtrip
        len_roundtrip b_roundtrip)
qed

section \<open>Header codec: claims\<close>

text \<open>
  Claim C1 (header round trip). For every header \<open>h\<close> whose reserved field is zero and
  every destination buffer of at least twelve bytes, \<open>emapi_serialize\<close> with kind
  \<open>EMOB_HDR\<close> returns 12, and \<open>emapi_deserialize\<close> with kind \<open>EMOB_HDR\<close> of the buffer it
  produced, into a zero-initialized header, returns 12 and yields \<open>h\<close>.
\<close>

theorem C1_header_roundtrip:
  assumes "hdr_rsvd h = 0" and "12 \<le> length buf"
  shows "\<exists>buf'. emapi_serialize (Some buf) (Some (HDR h)) (word_of_int EMOB_HDR) p
            = Inr (12, Some buf')
     \<and> emapi_deserialize (Some (HDR zero_hdr)) (Some buf') (word_of_int EMOB_HDR) q
            = Inr (12, Some (HDR h))"
  using assms
  by (simp add: emapi_serialize_def emapi_deserialize_def enum_defs EMLN_HDR_def
      serialize_hdr_length deserialize_serialize_hdr zero_hdr_def)

theorem C1_header_roundtrip_witness:
  "hdr_rsvd verify_hdr_obj = 0 \<and> 12 \<le> length (replicate 12 (0::u8))
   \<and> (\<exists>buf'. emapi_serialize (Some (replicate 12 0)) (Some (HDR verify_hdr_obj))
                 (word_of_int EMOB_HDR) None = Inr (12, Some buf')
        \<and> emapi_deserialize (Some (HDR zero_hdr)) (Some buf') (word_of_int EMOB_HDR) None
            = Inr (12, Some (HDR verify_hdr_obj)))"
  using C1_header_roundtrip [where h = verify_hdr_obj and buf = "replicate 12 0"
      and p = None and q = None]
  by (simp add: verify_hdr_obj_def)

text \<open>
  Claim C4 (byte-exact header encoding). Serializing the header of \<open>verify_hdr\<close>
  (ver 0, type Response, tag 0x42, rc 0xCD, opcode 0xAB, a 0x23, len 0x1FFF,
  b 0x12345678) with kind \<open>EMOB_HDR\<close> into a zeroed buffer of twelve bytes returns 12 and
  leaves the bytes 01 42 CD AB 23 00 FF 1F 78 56 34 12.
\<close>

theorem C4_header_bytes:
  "emapi_serialize (Some (replicate 12 0)) (Some (HDR verify_hdr_obj)) (word_of_int EMOB_HDR) None
     = Inr (12, Some [0x01, 0x42, 0xCD, 0xAB, 0x23, 0x00, 0xFF, 0x1F, 0x78, 0x56, 0x34, 0x12])"
  by code_simp

text \<open>
  Claim C10 (the reserved byte is not written). For every header and every destination
  buffer of at least twelve bytes, \<open>emapi_serialize\<close> with kind \<open>EMOB_HDR\<close> returns 12,
  keeps the length of the buffer, and leaves byte 5 and every byte from offset 12 on as
  they were; the first twelve bytes are the specified image with byte 5 replaced by the
  old byte 5, so they are that image exactly when byte 5 was zero before the call.
\<close>

theorem C10_reserved_byte_kept:
  assumes "12 \<le> length buf"
  shows "\<exists>buf'. emapi_serialize (Some buf) (Some (HDR h)) (word_of_int EMOB_HDR) p
            = Inr (12, Some buf')
     \<and> length buf' = length buf
     \<and> (\<forall>i. i = 5 \<or> 12 \<le> i \<longrightarrow> buf' ! i = buf ! i)
     \<and> take 12 buf' = (spec_header_image h)[5 := buf ! 5]
     \<and> (take 12 buf' = spec_header_image h \<longleftrightarrow> buf ! 5 = 0)"
proof -
  have img: "(spec_header_image h)[5 := x] = spec_header_image h \<longleftrightarrow> x = 0" for x
    by (auto simp: spec_header_image_def)
  from assms show ?thesis
    by (simp add: emapi_serialize_def enum_defs EMLN_HDR_def serialize_hdr_length
        serialize_hdr_take serialize_hdr_frame img)
qed

theorem C10_reserved_byte_kept_witness:
  "12 \<le> length (replicate 12 (0x5A::u8))
   \<and> (\<exists>buf'. emapi_serialize (Some (replicate 12 0x5A)) (Some (HDR verify_hdr_obj))
                 (word_of_int EMOB_HDR) None = Inr (12, Some buf')
        \<and> buf' ! 5 = 0x5A
        \<and> take 12 buf' \<noteq> spec_header_image verify_hdr_obj)"
  using C10_reserved_byte_kept [where h = verify_hdr_obj and buf = "replicate 12 0x5A"
      and p = None]
  by auto

section \<open>Name lookups: claims\<close>

lemmas STR_defs = STR_EMMT_def STR_EMOB_def STR_EMOP_def STR_EMRC_def

text \<open>Each table has as many entries as its enumeration has codes below \<open>_MAX\<close>.\<close>

lemma table_lengths:
  "int (length STR_EMMT) = EMMT_MAX" "int (length STR_EMOB) = EMOB_MAX"
  "int (length STR_EMOP) = EMOP_MAX" "int (length STR_EMRC) = EMRC_MAX"
  by (simp_all add: STR_defs enum_defs)

lemma table_entries_nonempty:
  "\<forall>s \<in> set STR_EMMT \<union> set STR_EMOB \<union> set STR_EMOP \<union> set STR_EMRC. s \<noteq> []"
  by (simp add: STR_defs)

lemma table_nth_nonempty:
  assumes "uint (u :: c_unsigned) < int (length tbl)" and "\<forall>s \<in> set tbl. s \<noteq> []"
  shows "tbl ! unat u \<noteq> []"
proof -
  from assms(1) have "int (unat u) < int (length tbl)"
    by simp
  then have "unat u < length tbl"
    by linarith
  then have "tbl ! unat u \<in> set tbl" by (rule nth_mem)
  with assms(2) show ?thesis by blast
qed

lemma emmt_bounds:
  "(uint u \<ge> EMMT_MAX \<longrightarrow> emmt u = None)
   \<and> (uint u < EMMT_MAX \<longrightarrow> (\<exists>s. emmt u = Some s \<and> s \<noteq> []))"
proof (cases "uint u \<ge> EMMT_MAX")
  case True
  then show ?thesis by (simp add: emmt_def)
next
  case False
  then have "uint u < int (length STR_EMMT)" by (simp add: table_lengths)
  then have "STR_EMMT ! unat u \<noteq> []"
    using table_entries_nonempty by (intro table_nth_nonempty) auto
  with False show ?thesis by (simp add: emmt_def)
qed

lemma emob_bounds:
  "(uint u \<ge> EMOB_MAX \<longrightarrow> emob u = None)
   \<and> (uint u < EMOB_MAX \<longrightarrow> (\<exists>s. emob u = Some s \<and> s \<noteq> []))"
proof (cases "uint u \<ge> EMOB_MAX")
  case True
  then show ?thesis by (simp add: emob_def)
next
  case False
  then have "uint u < int (length STR_EMOB)" by (simp add: table_lengths)
  then have "STR_EMOB ! unat u \<noteq> []"
    using table_entries_nonempty by (intro table_nth_nonempty) auto
  with False show ?thesis by (simp add: emob_def)
qed

lemma emop_bounds:
  "(uint u \<ge> EMOP_MAX \<longrightarrow> emop u = None)
   \<and> (uint u < EMOP_MAX \<longrightarrow> (\<exists>s. emop u = Some s \<and> s \<noteq> []))"
proof (cases "uint u \<ge> EMOP_MAX")
  case True
  then show ?thesis by (simp add: emop_def)
next
  case False
  then have "uint u < int (length STR_EMOP)" by (simp add: table_lengths)
  then have "STR_EMOP ! unat u \<noteq> []"
    using table_entries_nonempty by (intro table_nth_nonempty) auto
  with False show ?thesis by (simp add: emop_def)
qed

lemma emrc_bounds:
  "(uint u \<ge> EMRC_MAX \<longrightarrow> emrc u = None)
   \<and> (uint u < EMRC_MAX \<longrightarrow> (\<exists>s. emrc u = Some s \<and> s \<noteq> []))"
proof (cases "uint u \<ge> EMRC_MAX")
  case True
  then show ?thesis by (simp add: emrc_def)
next
  case False
  then have "uint u < int (length STR_EMRC)" by (simp add: table_lengths)
  then have "STR_EMRC ! unat u \<noteq> []"
    using table_entries_nonempty by (intro table_nth_nonempty) auto
  with False show ?thesis by (simp add: emrc_def)
qed

text \<open>
  Claim C9 (registry lookup bounds). For each of \<open>emmt\<close>, \<open>emob\<close>, \<open>emop\<close> and \<open>emrc\<close>,
  a code at or above the maximum (\<open>EMMT_MAX\<close> = 3, \<open>EMOB_MAX\<close> = 3, \<open>EMOP_MAX\<close> = 4,
  \<open>EMRC_MAX\<close> = 6) gives NULL, and a code below it gives a non-empty string. The
  lookups are functions of the code alone, so a repeated call gives the same string.
\<close>

theorem C9_registry_bounds:
  "(uint u \<ge> EMMT_MAX \<longrightarrow> emmt u = None)
   \<and> (uint u < EMMT_MAX \<longrightarrow> (\<exists>s. emmt u = Some s \<and> s \<noteq> []))
   \<and> (uint u \<ge> EMOB_MAX \<longrightarrow> emob u = None)
   \<and> (uint u < EMOB_MAX \<longrightarrow> (\<exists>s. emob u = Some s \<and> s \<noteq> []))
   \<and> (uint u \<ge> EMOP_MAX \<longrightarrow> emop u = None)
   \<and> (uint u < EMOP_MAX \<longrightarrow> (\<exists>s. emop u = Some s \<and> s \<noteq> []))
   \<and> (uint u \<ge> EMRC_MAX \<longrightarrow> emrc u = None)
   \<and> (uint u < EMRC_MAX \<longrightarrow> (\<exists>s. emrc u = Some s \<and> s \<noteq> []))"
  using emmt_bounds [of u] emob_bounds [of u] emop_bounds [of u] emrc_bounds [of u]
  by blast

theorem C9_registry_bounds_witness:
  "uint (6 :: c_unsigned) \<ge> EMRC_MAX \<and> emrc 6 = None
   \<and> uint (5 :: c_unsigned) < EMRC_MAX \<and> emrc 5 = Some ''Busy''
   \<and> uint (3 :: c_unsigned) \<ge> EMMT_MAX \<and> emmt 3 = None
   \<and> uint (2 :: c_unsigned) < EMMT_MAX \<and> emmt 2 = Some ''Event''"
  using C9_registry_bounds [of 6] C9_registry_bounds [of 5] C9_registry_bounds [of 3]
    C9_registry_bounds [of 2]
  by (auto simp: enum_defs emrc_def emmt_def STR_defs)

section \<open>Shape resolution: claims\<close>

text \<open>Both resolvers compute the same table: \<open>EMOB_LIST_DEV\<close> for opcode
  \<open>EMOP_LIST_DEV\<close> and \<open>EMOB_NULL\<close> for every other value of the argument.\<close>

lemma emob_rsp_table:
  "emapi_emob_rsp opc = (if uint opc = EMOP_LIST_DEV then EMOB_LIST_DEV else EMOB_NULL)"
  by (simp add: emapi_emob_rsp_def enum_defs)

lemma emob_req_table:
  "emapi_emob_req opc = (if uint opc = EMOP_LIST_DEV then EMOB_LIST_DEV else EMOB_NULL)"
  by (simp add: emapi_emob_req_def enum_defs)

text \<open>
  Claim C2 (shape resolution). The claim gives the request shape None to every opcode,
  List devices included. At opcode \<open>EMOP_LIST_DEV\<close> (0x01) \<open>emapi_emob_req\<close> returns
  \<open>EMOB_LIST_DEV\<close> (2), which is not \<open>EMOB_NULL\<close> (0); the comment of main.h on the List
  devices request says "Payload: None".
\<close>

theorem C2_request_shape_list_dev:
  "emapi_emob_req (word_of_int EMOP_LIST_DEV) = EMOB_LIST_DEV \<and> EMOB_LIST_DEV \<noteq> EMOB_NULL"
  by (simp add: emapi_emob_req_def enum_defs)

section \<open>Builders and NULL targets: claims\<close>

text \<open>
  Claim C8 (builder postcondition). Each of \<open>emapi_fill_conn\<close>, \<open>emapi_fill_disconn\<close>
  and \<open>emapi_fill_listdev\<close> returns 1 and writes nothing when the message pointer is NULL;
  otherwise it returns 0 and leaves a header whose opcode is 0x02, 0x03, 0x01
  respectively, whose immediate A and B are the two arguments converted to \<open>__u8\<close> and
  \<open>__u32\<close>, and whose version, type, tag, return code, reserved byte and length are
  zero; the payload is not touched. So the return value is nonzero exactly when the
  pointer is NULL.
\<close>

theorem C8_builders:
  "emapi_fill_conn None ppid dev = (1, None)
   \<and> emapi_fill_conn (Some m) ppid dev =
       (0, Some (m\<lparr>hdr := \<lparr>hdr_type = 0, hdr_ver = 0, hdr_tag = 0, hdr_rc = 0, hdr_opcode = 0x02,
                      hdr_a = ucast ppid, hdr_rsvd = 0, hdr_len = 0, hdr_b = dev\<rparr>\<rparr>))
   \<and> emapi_fill_disconn None ppid dev = (1, None)
   \<and> emapi_fill_disconn (Some m) ppid dev =
       (0, Some (m\<lparr>hdr := \<lparr>hdr_type = 0, hdr_ver = 0, hdr_tag = 0, hdr_rc = 0, hdr_opcode = 0x03,
                      hdr_a = ucast ppid, hdr_rsvd = 0, hdr_len = 0, hdr_b = dev\<rparr>\<rparr>))
   \<and> emapi_fill_listdev None ppid dev = (1, None)
   \<and> emapi_fill_listdev (Some m) ppid dev =
       (0, Some (m\<lparr>hdr := \<lparr>hdr_type = 0, hdr_ver = 0, hdr_tag = 0, hdr_rc = 0, hdr_opcode = 0x01,
                      hdr_a = ucast ppid, hdr_rsvd = 0, hdr_len = 0, hdr_b = dev\<rparr>\<rparr>))
   \<and> ((fst (emapi_fill_conn mp ppid dev) \<noteq> 0) = (mp = None))
   \<and> ((fst (emapi_fill_disconn mp ppid dev) \<noteq> 0) = (mp = None))
   \<and> ((fst (emapi_fill_listdev mp ppid dev) \<noteq> 0) = (mp = None))"
  by (simp add: emapi_fill_conn_def emapi_fill_disconn_def emapi_fill_listdev_def zero_hdr_def
      enum_defs split: option.split)

text \<open>The three builders and \<open>emapi_deserialize\<close> test the target pointer and return
  their error value for NULL.\<close>

lemma null_target_rejected:
  "emapi_fill_conn None a b = (1, None)"
  "emapi_fill_disconn None a b = (1, None)"
  "emapi_fill_listdev None a b = (1, None)"
  "emapi_deserialize None src ty p = Inr (- 1, None)"
  by (simp_all add: emapi_fill_conn_def emapi_fill_disconn_def emapi_fill_listdev_def
      emapi_deserialize_def)

text \<open>
  Claim C7 (NULL target). \<open>emapi_serialize\<close> tests only \<open>type\<close>: with a NULL \<open>dst\<close> and
  kind \<open>EMOB_HDR\<close> or \<open>EMOB_LIST_DEV\<close> it goes on to the assignment \<open>dst[0] = ...\<close>, a
  NULL dereference, and returns no error value.
\<close>

theorem C7_serialize_null_dst:
  "emapi_serialize None (Some (HDR h)) (word_of_int EMOB_HDR) p = Inl NullDereference
   \<and> emapi_serialize None (Some (DEVS (d # ds))) (word_of_int EMOB_LIST_DEV) p
       = Inl NullDereference"
  by (simp add: emapi_serialize_def enum_defs)

section \<open>Device list codec\<close>

subsection \<open>The decoding loop on a buffer of complete records\<close>

text \<open>The cursor \<open>k\<close> does not wrap while the offsets stay below \<open>2^32\<close>.\<close>

lemma unat_plus_of_nat:
  "unat (k :: c_unsigned) + m < 2 ^ 32 \<Longrightarrow> unat (k + of_nat m) = unat k + m"
  by (simp add: unat_word_ariths unat_of_nat)

lemma length_wire_dev:
  "unat (dev_len d) \<le> length (dev_name d) \<Longrightarrow> length (wire_dev d) = 2 + unat (dev_len d)"
  by (simp add: wire_dev_def)

text \<open>
  One iteration with the cursor on the record of \<open>d\<close>: the entry \<open>oi\<close> receives the
  record and the cursor moves behind it.
\<close>

lemma list_dev_loop_step:
  assumes src: "src = pre @ wire_dev d @ rest"
    and k: "unat k = length pre"
    and bound: "length pre + length (wire_dev d) < 2 ^ 32"
    and oi: "oi < length arr"
    and dn: "unat (dev_len d) \<le> length (dev_name d)"
    and en: "unat (dev_len d) \<le> length (dev_name (arr ! oi))"
    and ne: "dev_name (arr ! oi) \<noteq> []"
  shows "list_dev_loop (Suc n) arr oi src k =
     list_dev_loop n (arr[oi := store_dev (arr ! oi) d]) (Suc oi) src
       (k + of_nat (length (wire_dev d)))"
proof -
  let ?n = "unat (dev_len d)"
  have len: "length (wire_dev d) = 2 + ?n" using dn by (rule length_wire_dev)
  have k1: "unat (k + 1) = Suc (length pre)"
    using unat_plus_of_nat [of k 1] k bound len by simp
  have k2: "unat (k + 2) = Suc (Suc (length pre))"
    using unat_plus_of_nat [of k 2] k bound len by simp
  have r0: "src ! length pre = dev_id d" by (simp add: src wire_dev_def)
  have r1: "src ! Suc (length pre) = dev_len d" by (simp add: src wire_dev_def nth_append)
  have dr: "drop (Suc (Suc (length pre))) src = take ?n (dev_name d) @ rest"
    by (simp add: src wire_dev_def)
  have lsrc: "length src = length pre + 2 + ?n + length rest" using len by (simp add: src)
  have kk: "k + 2 + ucast (dev_len d) = k + of_nat (length (wire_dev d))"
    by (simp add: len add.assoc)
  have kk0: "k + 2 = k + of_nat (length (wire_dev d))" if "dev_len d = 0"
    using that by (simp add: len)
  show ?thesis
    using oi dn en ne
    by (simp add: k k1 k2 r0 r1 dr lsrc kk kk0 Let_def clear_name_def memcpy_def store_dev_def)
qed

lemma descriptor_of_store_dev:
  assumes "unat (dev_len d) \<le> length (dev_name d)"
  shows "descriptor_of (store_dev e d) = descriptor_of d"
  using assms by (simp add: descriptor_of_def store_dev_def)

lemma dev_ok_store_dev:
  assumes "dev_ok e" and "unat (dev_len d) \<le> length (dev_name d)"
    and "unat (dev_len d) \<le> EMLN_DEV_NAME"
  shows "dev_ok (store_dev e d)"
  using assms by (simp add: dev_ok_def store_dev_def)

lemma length_wire_devs_Cons:
  "length (wire_devs (d # ds)) = length (wire_dev d) + length (wire_devs ds)"
  by (simp add: wire_devs_def)

lemma wire_devs_Cons: "wire_devs (d # ds) = wire_dev d @ wire_devs ds"
  by (simp add: wire_devs_def)

text \<open>
  The loop over the records of \<open>ds\<close>, which start at offset \<open>length pre\<close> of the buffer:
  it consumes exactly these records, stores their descriptors in the entries \<open>oi\<close>,
  \<open>oi + 1\<close>, ... and changes no other entry.
\<close>

lemma list_dev_loop_wire:
  assumes "\<forall>d \<in> set ds. unat (dev_len d) \<le> length (dev_name d)
             \<and> unat (dev_len d) \<le> EMLN_DEV_NAME"
    and "\<forall>e \<in> set arr. dev_ok e"
    and "oi + length ds \<le> length arr"
    and "unat k = length pre"
    and "length pre + length (wire_devs ds) < 2 ^ 32"
  shows "\<exists>arr'. list_dev_loop (length ds) arr oi (pre @ wire_devs ds @ rest) k
            = Inr (k + of_nat (length (wire_devs ds)), arr')
     \<and> length arr' = length arr
     \<and> (\<forall>e \<in> set arr'. dev_ok e)
     \<and> (\<forall>j. j < oi \<or> oi + length ds \<le> j \<longrightarrow> arr' ! j = arr ! j)
     \<and> (\<forall>i < length ds. descriptor_of (arr' ! (oi + i)) = descriptor_of (ds ! i))"
  using assms
proof (induction ds arbitrary: arr oi k pre)
  case Nil
  then show ?case by (simp add: wire_devs_def)
next
  case (Cons d ds)
  let ?arr1 = "arr[oi := store_dev (arr ! oi) d]"
  let ?k1 = "k + of_nat (length (wire_dev d))"
  let ?src = "pre @ wire_devs (d # ds) @ rest"
  from Cons.prems(1) have dn: "unat (dev_len d) \<le> length (dev_name d)"
    and dn': "unat (dev_len d) \<le> EMLN_DEV_NAME" by auto
  from Cons.prems(3) have oi: "oi < length arr" by simp
  with Cons.prems(2) have ok: "dev_ok (arr ! oi)" by simp
  then have en: "unat (dev_len d) \<le> length (dev_name (arr ! oi))"
    and ne: "dev_name (arr ! oi) \<noteq> []"
    using dn' by (auto simp: dev_ok_def EMLN_DEV_NAME_def)
  have bound: "length pre + length (wire_dev d) < 2 ^ 32"
    using Cons.prems(5) by (simp add: length_wire_devs_Cons)
  have src: "?src = pre @ wire_dev d @ (wire_devs ds @ rest)"
    by (simp add: wire_devs_Cons)
  have step: "list_dev_loop (length (d # ds)) arr oi ?src k
      = list_dev_loop (length ds) ?arr1 (Suc oi) ?src ?k1"
    using list_dev_loop_step [OF src Cons.prems(4) bound oi dn en ne] by simp
  have src': "?src = (pre @ wire_dev d) @ wire_devs ds @ rest"
    by (simp add: wire_devs_Cons)
  have k1: "unat ?k1 = length (pre @ wire_dev d)"
    using unat_plus_of_nat [of k "length (wire_dev d)"] Cons.prems(4) bound by simp
  have ok1: "\<forall>e \<in> set ?arr1. dev_ok e"
    using Cons.prems(2) dev_ok_store_dev [OF ok dn dn'] 
    by (auto dest!: set_update_subset_insert [THEN subsetD]) 
  have "\<exists>arr'. list_dev_loop (length ds) ?arr1 (Suc oi) ((pre @ wire_dev d) @ wire_devs ds @ rest) ?k1
            = Inr (?k1 + of_nat (length (wire_devs ds)), arr')
     \<and> length arr' = length ?arr1
     \<and> (\<forall>e \<in> set arr'. dev_ok e)
     \<and> (\<forall>j. j < Suc oi \<or> Suc oi + length ds \<le> j \<longrightarrow> arr' ! j = ?arr1 ! j)
     \<and> (\<forall>i < length ds. descriptor_of (arr' ! (Suc oi + i)) = descriptor_of (ds ! i))"
  proof (rule Cons.IH [OF _ ok1 _ k1])
    show "\<forall>d\<in>set ds. unat (dev_len d) \<le> length (dev_name d) \<and> unat (dev_len d) \<le> EMLN_DEV_NAME"
      using Cons.prems(1) by simp
    show "Suc oi + length ds \<le> length ?arr1" using Cons.prems(3) by simp
    show "length (pre @ wire_dev d) + length (wire_devs ds) < 2 ^ 32"
      using Cons.prems(5) by (simp add: length_wire_devs_Cons)
  qed
  then obtain arr' where
    run0: "list_dev_loop (length ds) ?arr1 (Suc oi) ((pre @ wire_dev d) @ wire_devs ds @ rest) ?k1
            = Inr (?k1 + of_nat (length (wire_devs ds)), arr')"
    and len0: "length arr' = length ?arr1"
    and ok': "\<forall>e \<in> set arr'. dev_ok e"
    and frame0: "\<forall>j. j < Suc oi \<or> Suc oi + length ds \<le> j \<longrightarrow> arr' ! j = ?arr1 ! j"
    and cont0: "\<forall>i < length ds. descriptor_of (arr' ! (Suc oi + i)) = descriptor_of (ds ! i)"
    by blast
  from run0 have run: "list_dev_loop (length ds) ?arr1 (Suc oi) ?src ?k1
      = Inr (?k1 + of_nat (length (wire_devs ds)), arr')"
    unfolding src' .
  from len0 have len: "length arr' = length arr" by simp
  from frame0 have frame: "arr' ! j = ?arr1 ! j" if "j < Suc oi \<or> Suc oi + length ds \<le> j" for j
    using that by blast
  from cont0 have cont: "descriptor_of (arr' ! (Suc oi + i)) = descriptor_of (ds ! i)"
    if "i < length ds" for i
    using that by blast
  have kend: "?k1 + of_nat (length (wire_devs ds)) = k + of_nat (length (wire_devs (d # ds)))"
    by (simp add: length_wire_devs_Cons)
  have frame': "arr' ! j = arr ! j" if "j < oi \<or> oi + length (d # ds) \<le> j" for j
    using frame [of j] that by auto
  have cont': "descriptor_of (arr' ! (oi + i)) = descriptor_of ((d # ds) ! i)" if "i < length (d # ds)" for i
  proof (cases i)
    case 0
    then show ?thesis using frame [of oi] oi descriptor_of_store_dev [OF dn] by simp
  next
    case (Suc i')
    then show ?thesis using cont [of i'] that by simp
  qed
  show ?case
    using step run kend len ok' frame' cont' by (intro exI [of _ arr']) simp
qed


text \<open>A count and a byte total below \<open>2^31\<close> pass through \<open>unsigned\<close> and \<open>int\<close> unchanged.\<close>

lemma sint_of_nat_small:
  assumes "n < 2 ^ 31"
  shows "sint (of_nat n :: c_unsigned) = int n"
proof -
  have "signed_take_bit 31 (int n) = int n"
    using assms by (intro signed_take_bit_int_eq_self) simp_all
  then show ?thesis by (simp add: signed_of_nat)
qed

lemma unat_of_nat_small:
  assumes "n < 2 ^ 31"
  shows "unat (of_nat n :: c_unsigned) = n"
  using assms by (simp add: unat_of_nat)

lemma length_le_wire_devs: "length ds \<le> length (wire_devs ds)"
  by (induction ds) (simp_all add: wire_devs_def wire_dev_def)

lemma length_wire_devs_sum:
  assumes "\<forall>d \<in> set ds. unat (dev_len d) \<le> length (dev_name d)"
  shows "length (wire_devs ds) = (\<Sum>d\<leftarrow>ds. 2 + unat (dev_len d))"
  using assms by (induction ds) (simp_all add: wire_devs_def wire_dev_def)

lemma length_wire_devs_le:
  assumes "\<forall>d \<in> set ds. unat (dev_len d) \<le> EMLN_DEV_NAME"
  shows "length (wire_devs ds) \<le> 127 * length ds"
  using assms
  by (induction ds) (auto simp: wire_devs_def wire_dev_def EMLN_DEV_NAME_def min_def)

lemma wire_devs_small:
  assumes "\<forall>d \<in> set ds. unat (dev_len d) \<le> EMLN_DEV_NAME" and "length ds \<le> EMLN_DEV_NUM"
  shows "length (wire_devs ds) < 2 ^ 31"
  using length_wire_devs_le [OF assms(1)] assms(2) by (simp add: EMLN_DEV_NUM_def)

text \<open>Decoding a buffer that starts with the records of \<open>ds\<close>, with count \<open>length ds\<close>.\<close>

lemma emapi_deserialize_wire:
  assumes ds: "\<forall>d \<in> set ds. unat (dev_len d) \<le> length (dev_name d)
                 \<and> unat (dev_len d) \<le> EMLN_DEV_NAME"
    and arr: "\<forall>e \<in> set arr. dev_ok e"
    and n: "length ds \<le> length arr"
    and small: "length (wire_devs ds) < 2 ^ 31"
  shows "\<exists>arr'. emapi_deserialize (Some (DEVS arr)) (Some (wire_devs ds @ rest))
              (word_of_int EMOB_LIST_DEV) (Some (of_nat (length ds)))
            = Inr (int (length (wire_devs ds)), Some (DEVS arr'))
     \<and> length arr' = length arr
     \<and> (\<forall>e \<in> set arr'. dev_ok e)
     \<and> (\<forall>j. length ds \<le> j \<longrightarrow> arr' ! j = arr ! j)
     \<and> (\<forall>i < length ds. descriptor_of (arr' ! i) = descriptor_of (ds ! i))"
proof -
  have num: "unat (of_nat (length ds) :: c_unsigned) = length ds"
    using length_le_wire_devs [of ds] small by (intro unat_of_nat_small) simp
  from small have small32: "length ([] :: u8 list) + length (wire_devs ds) < 2 ^ 32"
    by simp
  obtain arr' where
    run: "list_dev_loop (length ds) arr 0 ([] @ wire_devs ds @ rest) 0
            = Inr (0 + of_nat (length (wire_devs ds)), arr')"
    and len: "length arr' = length arr"
    and ok: "\<forall>e \<in> set arr'. dev_ok e"
    and frame: "\<forall>j. j < 0 \<or> 0 + length ds \<le> j \<longrightarrow> arr' ! j = arr ! j"
    and cont: "\<forall>i < length ds. descriptor_of (arr' ! (0 + i)) = descriptor_of (ds ! i)"
    using list_dev_loop_wire [OF ds arr _ _ small32, of 0 0 rest] n by auto
  from run have "emapi_deserialize (Some (DEVS arr)) (Some (wire_devs ds @ rest))
              (word_of_int EMOB_LIST_DEV) (Some (of_nat (length ds)))
            = Inr (int (length (wire_devs ds)), Some (DEVS arr'))"
    by (simp add: emapi_deserialize_def enum_defs num sint_of_nat_small [OF small])
  with len ok frame cont show ?thesis
    by (intro exI [of _ arr']) simp
qed

subsection \<open>Encoding\<close>

lemma emapi_serialize_dev:
  assumes "unat (dev_len d) \<le> length (dev_name d)" and "length (wire_dev d) \<le> length buf"
  shows "emapi_serialize (Some buf) (Some (DEVS (d # ds))) (word_of_int EMOB_LIST_DEV) p
     = Inr (int (length (wire_dev d)), Some (wire_dev d @ drop (length (wire_dev d)) buf))"
  using assms
  by (simp add: emapi_serialize_def enum_defs memcpy_def wire_dev_def add.commute)

lemma serialize_devs_wire:
  assumes "\<forall>d \<in> set ds. unat (dev_len d) \<le> length (dev_name d)"
    and "length (wire_devs ds) \<le> length buf"
  shows "serialize_devs buf ds
     = Inr (length (wire_devs ds), wire_devs ds @ drop (length (wire_devs ds)) buf)"
  using assms
proof (induction ds arbitrary: buf)
  case Nil
  then show ?case by (simp add: wire_devs_def)
next
  case (Cons d ds)
  let ?w = "wire_dev d"
  from Cons.prems have dn: "unat (dev_len d) \<le> length (dev_name d)"
    and fit: "length ?w \<le> length buf"
    and fit': "length (wire_devs ds) \<le> length (drop (length ?w) buf)"
    by (simp_all add: length_wire_devs_Cons)
  have one: "emapi_serialize (Some buf) (Some (DEVS (d # ds))) (word_of_int EMOB_LIST_DEV) None
     = Inr (int (length ?w), Some (?w @ drop (length ?w) buf))"
    using dn fit by (rule emapi_serialize_dev)
  have rest: "serialize_devs (drop (length ?w) buf) ds
     = Inr (length (wire_devs ds), wire_devs ds @ drop (length (wire_devs ds)) (drop (length ?w) buf))"
    using Cons.prems(1) fit' by (intro Cons.IH) simp_all
  show ?case
    by (simp add: one rest wire_devs_Cons length_wire_devs_Cons add.commute)
qed


subsection \<open>The decoding loop past a capacity or the end of the buffer\<close>

text \<open>\<open>a + b\<close> iterations are \<open>a\<close> iterations followed by \<open>b\<close>.\<close>

lemma list_dev_loop_add:
  "list_dev_loop (a + b) arr oi src k =
     (case list_dev_loop a arr oi src k of
        Inl f \<Rightarrow> Inl f
      | Inr (k', arr') \<Rightarrow> list_dev_loop b arr' (oi + a) src k')"
  by (induction a arbitrary: arr oi k) (auto simp: Let_def split: sum.splits)

text \<open>
  The three ways one more iteration leaves an object: the entry is past the end of the
  destination array; the declared name length is above the size of \<open>name\<close>; the buffer
  ends inside the record.
\<close>

lemma list_dev_loop_array_overflow:
  assumes "length arr \<le> oi" and "unat k < length src"
  shows "list_dev_loop (Suc n) arr oi src k = Inl WriteOutOfBounds"
  using assms by simp

lemma list_dev_loop_name_overflow:
  assumes src: "src = pre @ wire_dev d @ rest"
    and k: "unat k = length pre"
    and bound: "length pre + length (wire_dev d) < 2 ^ 32"
    and oi: "oi < length arr"
    and ok: "dev_ok (arr ! oi)"
    and dn: "unat (dev_len d) \<le> length (dev_name d)"
    and big: "EMLN_DEV_NAME < unat (dev_len d)"
  shows "list_dev_loop (Suc n) arr oi src k = Inl WriteOutOfBounds"
proof -
  let ?n = "unat (dev_len d)"
  have len: "length (wire_dev d) = 2 + ?n" using dn by (rule length_wire_dev)
  have k1: "unat (k + 1) = Suc (length pre)"
    using unat_plus_of_nat [of k 1] k bound len by simp
  have k2: "unat (k + 2) = Suc (Suc (length pre))"
    using unat_plus_of_nat [of k 2] k bound len by simp
  have r0: "src ! length pre = dev_id d" by (simp add: src wire_dev_def)
  have r1: "src ! Suc (length pre) = dev_len d" by (simp add: src wire_dev_def nth_append)
  have dr: "drop (Suc (Suc (length pre))) src = take ?n (dev_name d) @ rest"
    by (simp add: src wire_dev_def)
  have lsrc: "length src = length pre + 2 + ?n + length rest" using len by (simp add: src)
  from big have nz: "dev_len d \<noteq> 0" by auto
  show ?thesis
    using oi dn ok big nz
    by (simp add: k k1 k2 r0 r1 dr lsrc Let_def memcpy_def dev_ok_def)
qed

lemma list_dev_loop_truncated:
  assumes src: "src = pre @ take m (wire_dev d)"
    and m: "m < length (wire_dev d)"
    and k: "unat k = length pre"
    and bound: "length pre + 2 < 2 ^ 32"
    and oi: "oi < length arr"
    and ok: "dev_ok (arr ! oi)"
    and dn: "unat (dev_len d) \<le> length (dev_name d)"
    and dn': "unat (dev_len d) \<le> EMLN_DEV_NAME"
  shows "list_dev_loop (Suc n) arr oi src k = Inl ReadOutOfBounds"
proof -
  let ?n = "unat (dev_len d)"
  have len: "length (wire_dev d) = 2 + ?n" using dn by (rule length_wire_dev)
  have k1: "unat (k + 1) = Suc (length pre)"
    using unat_plus_of_nat [of k 1] k bound by simp
  have k2: "unat (k + 2) = Suc (Suc (length pre))"
    using unat_plus_of_nat [of k 2] k bound by simp
  have lsrc: "length src = length pre + m" using m by (simp add: src)
  consider "m = 0" | "m = 1" | "2 \<le> m" by linarith
  then show ?thesis
  proof cases
    case 1
    then show ?thesis using oi by (simp add: k lsrc)
  next
    case 2
    then show ?thesis using oi by (simp add: k k1 lsrc)
  next
    case 3
    then obtain m' where m': "m = Suc (Suc m')" and less: "m' < ?n"
      using m len by (cases m; cases "m - 1") auto
    have r1: "src ! Suc (length pre) = dev_len d"
      by (simp add: src wire_dev_def nth_append m')
    have dr: "drop (Suc (Suc (length pre))) src = take m' (take ?n (dev_name d))"
      by (simp add: src wire_dev_def m')
    from less have nz: "dev_len d \<noteq> 0" by auto
    show ?thesis
      using oi dn dn' ok less nz
      by (simp add: k k1 k2 r1 dr lsrc m' Let_def memcpy_def dev_ok_def)
  qed
qed


subsection \<open>emapi_deserialize on device lists\<close>

lemma emapi_deserialize_list_dev:
  "emapi_deserialize (Some (DEVS arr)) (Some buf) (word_of_int EMOB_LIST_DEV) (Some num) =
     (case list_dev_loop (unat num) arr 0 buf 0 of
        Inl f \<Rightarrow> Inl f
      | Inr (k, arr') \<Rightarrow> Inr (sint k, Some (DEVS arr')))"
  by (simp add: emapi_deserialize_def enum_defs)

lemma list_dev_loop_one_more:
  assumes ds: "\<forall>d \<in> set ds. unat (dev_len d) \<le> length (dev_name d)
                 \<and> unat (dev_len d) \<le> EMLN_DEV_NAME"
    and arr: "\<forall>e \<in> set arr. dev_ok e"
    and n: "length ds \<le> length arr"
    and small: "length (wire_devs ds) < 2 ^ 31"
  shows "\<exists>arr'. length arr' = length arr \<and> (\<forall>e \<in> set arr'. dev_ok e)
     \<and> list_dev_loop (Suc (length ds)) arr 0 (wire_devs ds @ rest) 0
         = list_dev_loop (Suc 0) arr' (length ds) (wire_devs ds @ rest)
             (of_nat (length (wire_devs ds)))"
proof -
  from small have small32: "length ([] :: u8 list) + length (wire_devs ds) < 2 ^ 32"
    by simp
  obtain arr' where
    run: "list_dev_loop (length ds) arr 0 ([] @ wire_devs ds @ rest) 0
            = Inr (0 + of_nat (length (wire_devs ds)), arr')"
    and len: "length arr' = length arr"
    and ok: "\<forall>e \<in> set arr'. dev_ok e"
    using list_dev_loop_wire [OF ds arr _ _ small32, of 0 0 rest] n by auto
  have "list_dev_loop (length ds + Suc 0) arr 0 (wire_devs ds @ rest) 0
         = list_dev_loop (Suc 0) arr' (length ds) (wire_devs ds @ rest)
             (of_nat (length (wire_devs ds)))"
    using run by (simp only: list_dev_loop_add) simp
  with len ok show ?thesis by (intro exI [of _ arr']) simp
qed

lemma emapi_deserialize_truncated:
  assumes ds: "\<forall>d \<in> set ds. unat (dev_len d) \<le> length (dev_name d)
                 \<and> unat (dev_len d) \<le> EMLN_DEV_NAME"
    and arr: "\<forall>e \<in> set arr. dev_ok e"
    and n: "length ds < length arr"
    and num: "length ds \<le> EMLN_DEV_NUM"
    and dn: "unat (dev_len d) \<le> length (dev_name d)"
    and dn': "unat (dev_len d) \<le> EMLN_DEV_NAME"
    and m: "m < length (wire_dev d)"
  shows "emapi_deserialize (Some (DEVS arr)) (Some (wire_devs ds @ take m (wire_dev d)))
           (word_of_int EMOB_LIST_DEV) (Some (of_nat (Suc (length ds))))
         = Inl ReadOutOfBounds"
proof -
  from ds have ds': "\<forall>d \<in> set ds. unat (dev_len d) \<le> EMLN_DEV_NAME" by blast
  have small: "length (wire_devs ds) < 2 ^ 31"
    using ds' num by (rule wire_devs_small)
  have cnt: "unat (of_nat (Suc (length ds)) :: c_unsigned) = Suc (length ds)"
    using num by (intro unat_of_nat_small) (simp add: EMLN_DEV_NUM_def)
  have k: "unat (of_nat (length (wire_devs ds)) :: c_unsigned) = length (wire_devs ds)"
    using small by (rule unat_of_nat_small)
  from n have n': "length ds \<le> length arr" by simp
  obtain arr' where len: "length arr' = length arr" and ok: "\<forall>e \<in> set arr'. dev_ok e"
    and run: "list_dev_loop (Suc (length ds)) arr 0 (wire_devs ds @ take m (wire_dev d)) 0
         = list_dev_loop (Suc 0) arr' (length ds) (wire_devs ds @ take m (wire_dev d))
             (of_nat (length (wire_devs ds)))"
    using list_dev_loop_one_more [OF ds arr n' small] by blast
  have "list_dev_loop (Suc 0) arr' (length ds) (wire_devs ds @ take m (wire_dev d))
          (of_nat (length (wire_devs ds))) = Inl ReadOutOfBounds"
  proof (rule list_dev_loop_truncated [OF refl m k _ _ _ dn dn'])
    show "length (wire_devs ds) + 2 < 2 ^ 32" using small by simp
    show "length ds < length arr'" using n len by simp
    then show "dev_ok (arr' ! length ds)" using ok by simp
  qed
  with run show ?thesis
    by (simp only: emapi_deserialize_list_dev cnt) simp
qed

lemma emapi_deserialize_name_overflow:
  assumes ds: "\<forall>d \<in> set ds. unat (dev_len d) \<le> length (dev_name d)
                 \<and> unat (dev_len d) \<le> EMLN_DEV_NAME"
    and arr: "\<forall>e \<in> set arr. dev_ok e"
    and n: "length ds < length arr"
    and num: "length ds \<le> EMLN_DEV_NUM"
    and dn: "unat (dev_len d) \<le> length (dev_name d)"
    and big: "EMLN_DEV_NAME < unat (dev_len d)"
  shows "emapi_deserialize (Some (DEVS arr)) (Some (wire_devs ds @ wire_dev d @ rest))
           (word_of_int EMOB_LIST_DEV) (Some (of_nat (Suc (length ds))))
         = Inl WriteOutOfBounds"
proof -
  from ds have ds': "\<forall>d \<in> set ds. unat (dev_len d) \<le> EMLN_DEV_NAME" by blast
  have small: "length (wire_devs ds) < 2 ^ 31"
    using ds' num by (rule wire_devs_small)
  have cnt: "unat (of_nat (Suc (length ds)) :: c_unsigned) = Suc (length ds)"
    using num by (intro unat_of_nat_small) (simp add: EMLN_DEV_NUM_def)
  have k: "unat (of_nat (length (wire_devs ds)) :: c_unsigned) = length (wire_devs ds)"
    using small by (rule unat_of_nat_small)
  from n have n': "length ds \<le> length arr" by simp
  obtain arr' where len: "length arr' = length arr" and ok: "\<forall>e \<in> set arr'. dev_ok e"
    and run: "list_dev_loop (Suc (length ds)) arr 0 (wire_devs ds @ wire_dev d @ rest) 0
         = list_dev_loop (Suc 0) arr' (length ds) (wire_devs ds @ wire_dev d @ rest)
             (of_nat (length (wire_devs ds)))"
    using list_dev_loop_one_more [OF ds arr n' small] by blast
  have "unat (dev_len d) < 2 ^ 8"
    using unsigned_less [of "dev_len d"] by simp
  then have wd: "length (wire_dev d) < 1000"
    by (simp add: length_wire_dev [OF dn])
  have "list_dev_loop (Suc 0) arr' (length ds) (wire_devs ds @ wire_dev d @ rest)
          (of_nat (length (wire_devs ds))) = Inl WriteOutOfBounds"
  proof (rule list_dev_loop_name_overflow [OF refl k _ _ _ dn big])
    show "length (wire_devs ds) + length (wire_dev d) < 2 ^ 32" using small wd by simp
    show "length ds < length arr'" using n len by simp
    then show "dev_ok (arr' ! length ds)" using ok by simp
  qed
  with run show ?thesis
    by (simp only: emapi_deserialize_list_dev cnt) simp
qed

lemma emapi_deserialize_array_overflow:
  assumes ds: "\<forall>d \<in> set ds. unat (dev_len d) \<le> length (dev_name d)
                 \<and> unat (dev_len d) \<le> EMLN_DEV_NAME"
    and arr: "\<forall>e \<in> set arr. dev_ok e"
    and n: "length ds = length arr"
    and num: "length ds \<le> EMLN_DEV_NUM"
  shows "emapi_deserialize (Some (DEVS arr)) (Some (wire_devs ds @ x # rest))
           (word_of_int EMOB_LIST_DEV) (Some (of_nat (Suc (length ds))))
         = Inl WriteOutOfBounds"
proof -
  from ds have ds': "\<forall>d \<in> set ds. unat (dev_len d) \<le> EMLN_DEV_NAME" by blast
  have small: "length (wire_devs ds) < 2 ^ 31"
    using ds' num by (rule wire_devs_small)
  have cnt: "unat (of_nat (Suc (length ds)) :: c_unsigned) = Suc (length ds)"
    using num by (intro unat_of_nat_small) (simp add: EMLN_DEV_NUM_def)
  have k: "unat (of_nat (length (wire_devs ds)) :: c_unsigned) = length (wire_devs ds)"
    using small by (rule unat_of_nat_small)
  from n have n': "length ds \<le> length arr" by simp
  obtain arr' where len: "length arr' = length arr"
    and run: "list_dev_loop (Suc (length ds)) arr 0 (wire_devs ds @ x # rest) 0
         = list_dev_loop (Suc 0) arr' (length ds) (wire_devs ds @ x # rest)
             (of_nat (length (wire_devs ds)))"
    using list_dev_loop_one_more [OF ds arr n' small] by blast
  have "list_dev_loop (Suc 0) arr' (length ds) (wire_devs ds @ x # rest)
          (of_nat (length (wire_devs ds))) = Inl WriteOutOfBounds"
    using n len by (intro list_dev_loop_array_overflow) (simp_all add: k)
  with run show ?thesis
    by (simp only: emapi_deserialize_list_dev cnt) simp
qed


subsection \<open>Device list codec: claims\<close>

text \<open>
  Claim C5 (device list round trip). For every array \<open>ds\<close> of 0 to 64 entries whose name
  lengths are at most 125, serializing the entries in order with \<open>emapi_serialize\<close>
  (kind \<open>EMOB_LIST_DEV\<close>) into one buffer large enough for them produces the sum of
  \<open>2 + len\<close> bytes, and \<open>emapi_deserialize\<close> (kind \<open>EMOB_LIST_DEV\<close>, count the number of
  entries) of that buffer into an array of at least as many entries returns the same
  number of bytes and leaves the descriptors of \<open>ds\<close>, in order, in the first entries.
\<close>

theorem C5_device_list_roundtrip:
  assumes "length ds \<le> EMLN_DEV_NUM"
    and "\<forall>d \<in> set ds. dev_ok d \<and> unat (dev_len d) \<le> EMLN_DEV_NAME"
    and "\<forall>e \<in> set arr. dev_ok e"
    and "length ds \<le> length arr"
    and "(\<Sum>d\<leftarrow>ds. 2 + unat (dev_len d)) \<le> length buf"
  shows "\<exists>buf' arr'.
       serialize_devs buf ds = Inr ((\<Sum>d\<leftarrow>ds. 2 + unat (dev_len d)), buf')
     \<and> emapi_deserialize (Some (DEVS arr)) (Some buf') (word_of_int EMOB_LIST_DEV)
           (Some (of_nat (length ds)))
         = Inr (int (\<Sum>d\<leftarrow>ds. 2 + unat (dev_len d)), Some (DEVS arr'))
     \<and> map descriptor_of (take (length ds) arr') = map descriptor_of ds"
proof -
  let ?total = "\<Sum>d\<leftarrow>ds. 2 + unat (dev_len d)"
  from assms(2) have dn: "\<forall>d \<in> set ds. unat (dev_len d) \<le> length (dev_name d)"
    and dn': "\<forall>d \<in> set ds. unat (dev_len d) \<le> EMLN_DEV_NAME"
    by (auto simp: dev_ok_def)
  then have ds: "\<forall>d \<in> set ds. unat (dev_len d) \<le> length (dev_name d)
      \<and> unat (dev_len d) \<le> EMLN_DEV_NAME" by blast
  have total: "length (wire_devs ds) = ?total" using dn by (rule length_wire_devs_sum)
  have small: "length (wire_devs ds) < 2 ^ 31" using dn' assms(1) by (rule wire_devs_small)
  let ?buf' = "wire_devs ds @ drop (length (wire_devs ds)) buf"
  have enc: "serialize_devs buf ds = Inr (?total, ?buf')"
    using serialize_devs_wire [OF dn] assms(5) total by simp
  obtain arr' where
    dec: "emapi_deserialize (Some (DEVS arr)) (Some ?buf') (word_of_int EMOB_LIST_DEV)
              (Some (of_nat (length ds)))
            = Inr (int (length (wire_devs ds)), Some (DEVS arr'))"
    and len: "length arr' = length arr"
    and cont: "\<forall>i < length ds. descriptor_of (arr' ! i) = descriptor_of (ds ! i)"
    using emapi_deserialize_wire [OF ds assms(3) assms(4) small] by blast
  have "map descriptor_of (take (length ds) arr') = map descriptor_of ds"
    using cont len assms(4) by (intro nth_equalityI) simp_all
  with enc dec total show ?thesis by auto
qed

theorem C5_device_list_roundtrip_witness:
  "length [verify_dev_obj] \<le> EMLN_DEV_NUM
   \<and> dev_ok verify_dev_obj \<and> unat (dev_len verify_dev_obj) \<le> EMLN_DEV_NAME
   \<and> dev_ok zero_dev
   \<and> length [verify_dev_obj] \<le> length [zero_dev]
   \<and> (\<Sum>d\<leftarrow>[verify_dev_obj]. 2 + unat (dev_len d)) \<le> length (replicate 14 (0::u8))
   \<and> (\<exists>buf' arr'.
         serialize_devs (replicate 14 0) [verify_dev_obj] = Inr (14, buf')
       \<and> emapi_deserialize (Some (DEVS [zero_dev])) (Some buf') (word_of_int EMOB_LIST_DEV)
             (Some 1)
           = Inr (14, Some (DEVS arr'))
       \<and> map descriptor_of (take 1 arr') = [descriptor_of verify_dev_obj])"
  using C5_device_list_roundtrip [of "[verify_dev_obj]" "[zero_dev]" "replicate 14 0"]
  by (simp add: verify_dev_obj_def zero_dev_def dev_ok_def EMLN_DEV_NAME_def EMLN_DEV_NUM_def)

text \<open>
  Claim C3 (truncation rejection) fails on the code. The buffer holds three bytes: id 1,
  name length 5 and one name byte. With a NULL \<open>param\<close> one descriptor is decoded:
  \<open>memcpy(o->name, &src[2], 5)\<close> reads \<open>src[2]\<close> to \<open>src[6]\<close>, past the end of the buffer;
  the call does not return the error value.
\<close>

theorem C3_counterexample:
  "emapi_deserialize (Some (DEVS [zero_dev])) (Some [0x01, 0x05, 0x41])
      (word_of_int EMOB_LIST_DEV) None = Inl ReadOutOfBounds"
  by (simp add: emapi_deserialize_def enum_defs zero_dev_def EMLN_DEV_NAME_def memcpy_def)

text \<open>
  Claim C3 as amended. \<open>emapi_deserialize\<close> is given no buffer length and makes no
  truncation check. When the buffer holds the records of the \<open>count\<close> descriptors asked
  for (at most 64, name lengths at most 125, destination array with at least \<open>count\<close>
  entries), followed by anything, the call returns the number of bytes consumed, the sum of
  \<open>2 + len\<close>, which is within the buffer: there is no read past the buffer. When the
  buffer ends inside the record of the next descriptor asked for, the call returns no
  error: it reads past the end of the buffer.
\<close>

theorem C3_no_truncation_check:
  assumes "length ds \<le> EMLN_DEV_NUM"
    and "\<forall>d \<in> set ds. dev_ok d \<and> unat (dev_len d) \<le> EMLN_DEV_NAME"
    and "\<forall>e \<in> set arr. dev_ok e"
    and "length ds \<le> length arr"
  shows "(\<exists>arr'. emapi_deserialize (Some (DEVS arr)) (Some (wire_devs ds @ rest))
                   (word_of_int EMOB_LIST_DEV) (Some (of_nat (length ds)))
                 = Inr (int (\<Sum>d\<leftarrow>ds. 2 + unat (dev_len d)), Some (DEVS arr')))
     \<and> (\<Sum>d\<leftarrow>ds. 2 + unat (dev_len d)) \<le> length (wire_devs ds @ rest)
     \<and> (length ds < length arr \<and> dev_ok d \<and> unat (dev_len d) \<le> EMLN_DEV_NAME
           \<and> m < length (wire_dev d)
         \<longrightarrow> emapi_deserialize (Some (DEVS arr)) (Some (wire_devs ds @ take m (wire_dev d)))
               (word_of_int EMOB_LIST_DEV) (Some (of_nat (Suc (length ds))))
             = Inl ReadOutOfBounds)"
proof -
  from assms(2) have dn: "\<forall>d \<in> set ds. unat (dev_len d) \<le> length (dev_name d)"
    and dn': "\<forall>d \<in> set ds. unat (dev_len d) \<le> EMLN_DEV_NAME"
    by (auto simp: dev_ok_def)
  then have ds: "\<forall>d \<in> set ds. unat (dev_len d) \<le> length (dev_name d)
      \<and> unat (dev_len d) \<le> EMLN_DEV_NAME" by blast
  have total: "length (wire_devs ds) = (\<Sum>d\<leftarrow>ds. 2 + unat (dev_len d))"
    using dn by (rule length_wire_devs_sum)
  have small: "length (wire_devs ds) < 2 ^ 31" using dn' assms(1) by (rule wire_devs_small)
  have complete: "\<exists>arr'. emapi_deserialize (Some (DEVS arr)) (Some (wire_devs ds @ rest))
                   (word_of_int EMOB_LIST_DEV) (Some (of_nat (length ds)))
                 = Inr (int (\<Sum>d\<leftarrow>ds. 2 + unat (dev_len d)), Some (DEVS arr'))"
    using emapi_deserialize_wire [OF ds assms(3) assms(4) small, of rest] total by auto
  have cut: "emapi_deserialize (Some (DEVS arr)) (Some (wire_devs ds @ take m (wire_dev d)))
               (word_of_int EMOB_LIST_DEV) (Some (of_nat (Suc (length ds))))
             = Inl ReadOutOfBounds"
    if "length ds < length arr" "dev_ok d" "unat (dev_len d) \<le> EMLN_DEV_NAME"
      "m < length (wire_dev d)"
    using that emapi_deserialize_truncated [OF ds assms(3) _ assms(1), of d m]
    by (simp add: dev_ok_def)
  from complete cut total show ?thesis by auto
qed

theorem C3_no_truncation_check_witness:
  "length [verify_dev_obj] \<le> EMLN_DEV_NUM
   \<and> dev_ok verify_dev_obj \<and> unat (dev_len verify_dev_obj) \<le> EMLN_DEV_NAME
   \<and> dev_ok zero_dev
   \<and> length [verify_dev_obj] \<le> length [zero_dev, zero_dev]
   \<and> (\<exists>arr'. emapi_deserialize (Some (DEVS [zero_dev, zero_dev]))
                 (Some (wire_devs [verify_dev_obj] @ [0xEE]))
                 (word_of_int EMOB_LIST_DEV) (Some 1)
               = Inr (14, Some (DEVS arr')))
   \<and> length [verify_dev_obj] < length [zero_dev, zero_dev] \<and> dev_ok verify_dev_obj
   \<and> unat (dev_len verify_dev_obj) \<le> EMLN_DEV_NAME \<and> 5 < length (wire_dev verify_dev_obj)
   \<and> emapi_deserialize (Some (DEVS [zero_dev, zero_dev]))
          (Some (wire_devs [verify_dev_obj] @ take 5 (wire_dev verify_dev_obj)))
          (word_of_int EMOB_LIST_DEV) (Some 2)
        = Inl ReadOutOfBounds"
  using C3_no_truncation_check [of "[verify_dev_obj]" "[zero_dev, zero_dev]" "[0xEE]"
      verify_dev_obj 5]
  by (simp add: verify_dev_obj_def zero_dev_def dev_ok_def EMLN_DEV_NAME_def EMLN_DEV_NUM_def
      wire_dev_def)


lemma wire_devs_zero: "wire_devs (replicate n zero_dev) = replicate (2 * n) 0"
  by (induction n) (simp_all add: wire_devs_def wire_dev_def zero_dev_def)

text \<open>
  Claim C6 (capacity enforcement) fails on the code. First input: one descriptor with
  declared name length 126 and its 126 name bytes, decoded into the 64 entries of a
  message; \<open>memcpy(o->name, &src[2], 126)\<close> writes past the 125 bytes of \<open>name\<close>. Second
  input: a count of 65 with a buffer of 65 empty records, decoded into the same 64
  entries; the 65th iteration assigns \<open>o->id\<close> past the end of the array. Neither call
  returns the error value.
\<close>

theorem C6_counterexample:
  "emapi_deserialize (Some (DEVS (replicate EMLN_DEV_NUM zero_dev)))
      (Some (0x07 # 126 # replicate 126 0x41)) (word_of_int EMOB_LIST_DEV) None
     = Inl WriteOutOfBounds
   \<and> emapi_deserialize (Some (DEVS (replicate EMLN_DEV_NUM zero_dev)))
      (Some (replicate 130 0)) (word_of_int EMOB_LIST_DEV) (Some 65)
     = Inl WriteOutOfBounds"
proof
  show "emapi_deserialize (Some (DEVS (replicate EMLN_DEV_NUM zero_dev)))
      (Some (0x07 # 126 # replicate 126 0x41)) (word_of_int EMOB_LIST_DEV) None
     = Inl WriteOutOfBounds"
    by (simp add: emapi_deserialize_def enum_defs zero_dev_def EMLN_DEV_NAME_def
        EMLN_DEV_NUM_def memcpy_def)
next
  let ?ds = "replicate EMLN_DEV_NUM zero_dev"
  have "replicate (128 + 2) (0::u8) = replicate 128 0 @ replicate 2 0"
    by (rule replicate_add)
  then have buf: "replicate 130 (0::u8) = wire_devs ?ds @ 0 # [0]"
    unfolding wire_devs_zero by (simp add: EMLN_DEV_NUM_def numeral_2_eq_2)
  have "emapi_deserialize (Some (DEVS ?ds)) (Some (wire_devs ?ds @ 0 # [0]))
      (word_of_int EMOB_LIST_DEV) (Some (of_nat (Suc (length ?ds)))) = Inl WriteOutOfBounds"
    by (rule emapi_deserialize_array_overflow)
       (simp_all add: zero_dev_def dev_ok_def EMLN_DEV_NAME_def)
  then show "emapi_deserialize (Some (DEVS ?ds)) (Some (replicate 130 0))
      (word_of_int EMOB_LIST_DEV) (Some 65) = Inl WriteOutOfBounds"
    unfolding buf by (simp add: EMLN_DEV_NUM_def)
qed

text \<open>
  Claim C6 as amended. \<open>emapi_deserialize\<close> compares no name length with
  \<open>EMLN_DEV_NAME\<close> and no count with \<open>EMLN_DEV_NUM\<close>; capacity is a precondition of the
  call. When the buffer holds the complete records of the \<open>count\<close> descriptors asked for,
  followed by anything, every one of these declared name lengths is at most 125, the
  count is at most 64 and at most the number of entries of the destination array, and
  every entry of that array has its name array of 125 bytes, the call returns the number
  of bytes consumed, the array keeps its number of entries, every entry keeps a name array
  of 125 bytes, the stored name lengths are at most 125 and the entries from index
  \<open>count\<close> on are unchanged. When such a buffer goes on with the complete record of one
  more descriptor whose declared name length is above 125 and the destination has an
  entry for it, or when it goes on with at least one more byte and the destination has no
  entry left, a call with the count one larger is not rejected with an error: the copy
  runs past the name array, or the store past the destination array.
\<close>

theorem C6_no_capacity_check:
  assumes "length ds \<le> EMLN_DEV_NUM"
    and "\<forall>d \<in> set ds. dev_ok d \<and> unat (dev_len d) \<le> EMLN_DEV_NAME"
    and "\<forall>e \<in> set arr. dev_ok e"
    and "length ds \<le> length arr"
  shows "(\<exists>arr'. emapi_deserialize (Some (DEVS arr)) (Some (wire_devs ds @ rest))
                   (word_of_int EMOB_LIST_DEV) (Some (of_nat (length ds)))
                 = Inr (int (\<Sum>d\<leftarrow>ds. 2 + unat (dev_len d)), Some (DEVS arr'))
          \<and> length arr' = length arr
          \<and> (\<forall>e \<in> set arr'. dev_ok e)
          \<and> (\<forall>i < length ds. unat (dev_len (arr' ! i)) \<le> EMLN_DEV_NAME)
          \<and> (\<forall>j. length ds \<le> j \<longrightarrow> arr' ! j = arr ! j))
     \<and> (length ds < length arr \<and> unat (dev_len big) \<le> length (dev_name big)
           \<and> EMLN_DEV_NAME < unat (dev_len big)
         \<longrightarrow> emapi_deserialize (Some (DEVS arr)) (Some (wire_devs ds @ wire_dev big @ rest))
               (word_of_int EMOB_LIST_DEV) (Some (of_nat (Suc (length ds))))
             = Inl WriteOutOfBounds)
     \<and> (length ds = length arr
         \<longrightarrow> emapi_deserialize (Some (DEVS arr)) (Some (wire_devs ds @ x # rest))
               (word_of_int EMOB_LIST_DEV) (Some (of_nat (Suc (length ds))))
             = Inl WriteOutOfBounds)"
proof -
  from assms(2) have dn: "\<forall>d \<in> set ds. unat (dev_len d) \<le> length (dev_name d)"
    and dn': "\<forall>d \<in> set ds. unat (dev_len d) \<le> EMLN_DEV_NAME"
    by (auto simp: dev_ok_def)
  then have ds: "\<forall>d \<in> set ds. unat (dev_len d) \<le> length (dev_name d)
      \<and> unat (dev_len d) \<le> EMLN_DEV_NAME" by blast
  have total: "length (wire_devs ds) = (\<Sum>d\<leftarrow>ds. 2 + unat (dev_len d))"
    using dn by (rule length_wire_devs_sum)
  have small: "length (wire_devs ds) < 2 ^ 31" using dn' assms(1) by (rule wire_devs_small)
  obtain arr' where
    dec: "emapi_deserialize (Some (DEVS arr)) (Some (wire_devs ds @ rest))
              (word_of_int EMOB_LIST_DEV) (Some (of_nat (length ds)))
            = Inr (int (length (wire_devs ds)), Some (DEVS arr'))"
    and len: "length arr' = length arr"
    and ok: "\<forall>e \<in> set arr'. dev_ok e"
    and frame: "\<forall>j. length ds \<le> j \<longrightarrow> arr' ! j = arr ! j"
    and cont: "\<forall>i < length ds. descriptor_of (arr' ! i) = descriptor_of (ds ! i)"
    using emapi_deserialize_wire [OF ds assms(3) assms(4) small, of rest] by blast
  have lens: "unat (dev_len (arr' ! i)) \<le> EMLN_DEV_NAME" if "i < length ds" for i
  proof -
    from cont that have "dev_len (arr' ! i) = dev_len (ds ! i)"
      by (auto simp: descriptor_of_def)
    with dn' that show ?thesis by simp
  qed
  have within: "\<exists>arr'. emapi_deserialize (Some (DEVS arr)) (Some (wire_devs ds @ rest))
                   (word_of_int EMOB_LIST_DEV) (Some (of_nat (length ds)))
                 = Inr (int (\<Sum>d\<leftarrow>ds. 2 + unat (dev_len d)), Some (DEVS arr'))
          \<and> length arr' = length arr
          \<and> (\<forall>e \<in> set arr'. dev_ok e)
          \<and> (\<forall>i < length ds. unat (dev_len (arr' ! i)) \<le> EMLN_DEV_NAME)
          \<and> (\<forall>j. length ds \<le> j \<longrightarrow> arr' ! j = arr ! j)"
    using dec len ok frame lens total by (intro exI [of _ arr']) simp
  have name: "emapi_deserialize (Some (DEVS arr)) (Some (wire_devs ds @ wire_dev big @ rest))
               (word_of_int EMOB_LIST_DEV) (Some (of_nat (Suc (length ds))))
             = Inl WriteOutOfBounds"
    if "length ds < length arr" "unat (dev_len big) \<le> length (dev_name big)"
      "EMLN_DEV_NAME < unat (dev_len big)"
    using that(2,3) by (intro emapi_deserialize_name_overflow [OF ds assms(3) that(1) assms(1)])
  have count: "emapi_deserialize (Some (DEVS arr)) (Some (wire_devs ds @ x # rest))
               (word_of_int EMOB_LIST_DEV) (Some (of_nat (Suc (length ds))))
             = Inl WriteOutOfBounds"
    if "length ds = length arr"
    using that by (intro emapi_deserialize_array_overflow [OF ds assms(3) _ assms(1)])
  from within name count show ?thesis by blast
qed

theorem C6_no_capacity_check_witness:
  "length [verify_dev_obj] \<le> EMLN_DEV_NUM
   \<and> dev_ok verify_dev_obj \<and> unat (dev_len verify_dev_obj) \<le> EMLN_DEV_NAME
   \<and> dev_ok zero_dev
   \<and> length [verify_dev_obj] \<le> length [zero_dev, zero_dev]
   \<and> (\<exists>arr'. emapi_deserialize (Some (DEVS [zero_dev, zero_dev]))
                 (Some (wire_devs [verify_dev_obj] @ [0xEE]))
                 (word_of_int EMOB_LIST_DEV) (Some 1)
               = Inr (14, Some (DEVS arr'))
             \<and> length arr' = 2 \<and> dev_ok (arr' ! 0) \<and> arr' ! 1 = zero_dev)
   \<and> length [verify_dev_obj] < length [zero_dev, zero_dev]
   \<and> emapi_deserialize (Some (DEVS [zero_dev, zero_dev]))
         (Some (wire_devs [verify_dev_obj] @ (0x07 # 126 # replicate 126 0x41) @ [0xEE]))
         (word_of_int EMOB_LIST_DEV) (Some 2)
       = Inl WriteOutOfBounds
   \<and> length [verify_dev_obj] = length [zero_dev]
   \<and> emapi_deserialize (Some (DEVS [zero_dev]))
         (Some (wire_devs [verify_dev_obj] @ 0x09 # [0xEE]))
         (word_of_int EMOB_LIST_DEV) (Some 2)
       = Inl WriteOutOfBounds"
  using C6_no_capacity_check [where ds = "[verify_dev_obj]" and arr = "[zero_dev, zero_dev]"
      and rest = "[0xEE]" and x = "0x09"
      and big = "\<lparr>dev_id = 0x07, dev_len = 126, dev_name = replicate 126 0x41\<rparr>"]
    C6_no_capacity_check [where ds = "[verify_dev_obj]" and arr = "[zero_dev]"
      and rest = "[0xEE]" and x = "0x09" and big = verify_dev_obj]
  by (auto simp: verify_dev_obj_def zero_dev_def dev_ok_def EMLN_DEV_NAME_def EMLN_DEV_NUM_def
      wire_dev_def)

end
